theory Spec2Isabelle
  imports Complex_Main
begin

section \<open>Data model\<close>

text \<open>
  The embedding follows \<^verbatim>\<open>src/services/speedProcessor.js\<close> (class SpeedProcessor),
  \<^verbatim>\<open>alertSystem.js\<close> (class AlertSystem and its strategies) and
  \<^verbatim>\<open>mqttSpeedProcessor.js\<close> (class MqttSpeedProcessor).

  JavaScript numbers are IEEE doubles; the model computes with exact rationals, so every
  statement about an average, a percentage or a rounding is a statement about the exact
  value of the source expression. Points in time (\<^verbatim>\<open>Date.now()\<close>, timestamps) are
  integers, milliseconds since the epoch; every clock reading of the source is a parameter
  of the function that takes it.
\<close>

type_synonym time = int

datatype severity = LOW | MEDIUM | HIGH | CRITICAL

text \<open>The normalized reading, \<^verbatim>\<open>validationResult.data\<close>.\<close>

record speedData =
  vehicleId :: string
  speed :: rat
  timestamp :: time
  location :: "(rat \<times> rat) option"
  vehicleType :: string

text \<open>One entry of \<^verbatim>\<open>speedHistory\<close>: \<^verbatim>\<open>{speed, timestamp}\<close>.\<close>

type_synonym historyEntry = "rat \<times> time"

text \<open>The per-vehicle record held in \<^verbatim>\<open>this.vehicleStates\<close>.\<close>

record vehicleState =
  vsVehicleId :: string
  lastSeen :: "time option"
  consecutiveViolations :: nat
  totalViolations :: nat
  averageSpeed :: rat
  maxSpeed :: rat
  recordCount :: nat
  speedHistory :: "historyEntry list"

text \<open>The object returned by \<^verbatim>\<open>checkSpeedViolation\<close>.\<close>

record violation =
  violationId :: "time \<times> string"
  vVehicleId :: string
  vSpeed :: rat
  speedLimit :: rat
  exceedAmount :: rat
  exceedPercentage :: rat
  vSeverity :: severity
  isConsecutive :: bool
  consecutiveCount :: nat
  vTimestamp :: time
  vLocation :: "(rat \<times> rat) option"
  vVehicleType :: string
  detectedAt :: time

text \<open>
  What a strategy's \<^verbatim>\<open>processViolation\<close> returns. The description is a template
  string in the source; the model keeps the template's kind and the values it interpolates,
  not the rendered text. A key the strategy does not set (\<^verbatim>\<open>escalated\<close>,
  \<^verbatim>\<open>requiresImmediate\<close>, \<^verbatim>\<open>patternDetected\<close>) is \<open>False\<close>.
\<close>

datatype description =
    ExceededLimitBy string rat
  | ConsecutiveViolations string nat
  | CriticalAt string rat rat
  | PatternDetected string

record alertData =
  priority :: string
  recommendedAction :: string
  description :: description
  escalated :: bool
  requiresImmediate :: bool
  patternDetected :: bool

text \<open>The object built by \<^verbatim>\<open>createAlert\<close>: the violation's fields, then the strategy's.\<close>

record alert =
  alertId :: "time \<times> string"
  alertType :: string
  aSeverity :: severity
  aVehicleId :: string
  aSpeed :: rat
  aSpeedLimit :: rat
  aExceedAmount :: rat
  aExceedPercentage :: rat
  aLocation :: "(rat \<times> rat) option"
  aVehicleType :: string
  aTimestamp :: time
  aDetectedAt :: time
  createdAt :: time
  aIsConsecutive :: bool
  aConsecutiveCount :: nat
  status :: string
  strategyData :: alertData

text \<open>The value \<^verbatim>\<open>storeAlert\<close> puts into \<^verbatim>\<open>activeAlerts\<close>.\<close>

record activeAlert =
  lastAlert :: time
  aaAlertId :: "time \<times> string"
  aaSeverity :: severity

text \<open>
  The fields of AlertSystem. \<^verbatim>\<open>mqttClient\<close> is \<open>None\<close> for the source's
  \<^verbatim>\<open>null\<close>; a client is represented by the list of alerts whose
  \<^verbatim>\<open>publishAlert\<close> call succeeded, oldest first. MqttSpeedProcessor constructs the
  alert system with a client and no notification handlers, so the handler loop of
  \<^verbatim>\<open>sendNotifications\<close> has nothing to run over and is not modelled.
\<close>

record alertSystem =
  alertHistory :: "alert list"
  activeAlerts :: "string \<rightharpoonup> activeAlert"
  maxHistorySize :: nat
  suppressionWindow :: int
  mqttClient :: "alert list option"

text \<open>
  The fields of SpeedProcessor that the methods read and write. \<^verbatim>\<open>speedLimit\<close> and
  \<^verbatim>\<open>consecutiveLimit\<close> come from the configuration, which rejects a speed limit
  \<open>\<le> 0\<close> and a consecutive limit \<open>< 1\<close>. \<^verbatim>\<open>dataStore\<close> is \<open>None\<close> for
  \<^verbatim>\<open>null\<close>; a store is represented by the readings handed to
  \<^verbatim>\<open>saveSpeedRecord\<close>, oldest first, each with whether the write succeeded.
\<close>

record speedProcessor =
  vehicleStates :: "string \<rightharpoonup> vehicleState"
  spSpeedLimit :: rat
  consecutiveLimit :: nat
  processedCount :: nat
  violationCount :: nat
  dataStore :: "(speedData \<times> bool) list option"
  alertSystem :: "alertSystem option"

text \<open>
  What the outside world does during one message: the clock readings, in the order the
  source takes them, and which calls to a collaborator throw.
\<close>

record env =
  tMessage :: time
  tParse :: time
  tDetect :: time
  saveThrows :: bool
  tCheck :: time
  tCreate :: time
  tStore :: time
  publishThrows :: bool
  tSimple :: time
  simplePublishThrows :: bool
  tCritical :: time
  criticalPublishThrows :: bool

section \<open>SpeedProcessor\<close>

text \<open>
  \<^verbatim>\<open>parseFloat(x.toFixed(2))\<close>: \<^verbatim>\<open>toFixed\<close> picks the integer \<open>n\<close> with \<open>n / 100\<close>
  nearest to \<open>\<bar>x\<bar>\<close>, the larger one on a tie, and restores the sign.
\<close>

definition toFixed2 :: "rat \<Rightarrow> rat" where
  "toFixed2 x =
     (if x < 0 then - (of_int \<lfloor>(- x) * 100 + 1 / 2\<rfloor> / 100)
      else of_int \<lfloor>x * 100 + 1 / 2\<rfloor> / 100)"

text \<open>The constructor of SpeedProcessor, with the two configuration values it reads.\<close>

definition newSpeedProcessor ::
  "rat \<Rightarrow> nat \<Rightarrow> alertSystem option \<Rightarrow> (speedData \<times> bool) list option \<Rightarrow> speedProcessor" where
  "newSpeedProcessor limit climit a store =
     \<lparr> vehicleStates = Map.empty, spSpeedLimit = limit, consecutiveLimit = climit,
       processedCount = 0, violationCount = 0, dataStore = store, alertSystem = a \<rparr>"

text \<open>The literal that \<^verbatim>\<open>updateVehicleState\<close> uses for a vehicle seen for the first time.\<close>

definition newVehicleState :: "string \<Rightarrow> vehicleState" where
  "newVehicleState vid =
     \<lparr> vsVehicleId = vid, lastSeen = None, consecutiveViolations = 0, totalViolations = 0,
       averageSpeed = 0, maxSpeed = 0, recordCount = 0, speedHistory = [] \<rparr>"

text \<open>
  The body of \<^verbatim>\<open>updateVehicleState\<close> on the record it found or created, statement by
  statement: statistics, running average, history (push, then shift when longer than 10),
  counters.
\<close>

definition updateState :: "rat \<Rightarrow> vehicleState \<Rightarrow> speedData \<Rightarrow> vehicleState" where
  "updateState limit currentState d =
     (let s1 = currentState\<lparr> lastSeen := Some (timestamp d) \<rparr>;
          s2 = s1\<lparr> recordCount := recordCount s1 + 1 \<rparr>;
          s3 = s2\<lparr> maxSpeed := max (maxSpeed s2) (speed d) \<rparr>;
          totalSpeed = averageSpeed s3 * (of_nat (recordCount s3) - 1) + speed d;
          s4 = s3\<lparr> averageSpeed := totalSpeed / of_nat (recordCount s3) \<rparr>;
          pushed = speedHistory s4 @ [(speed d, timestamp d)];
          s5 = s4\<lparr> speedHistory := (if length pushed > 10 then tl pushed else pushed) \<rparr>
      in if speed d > limit
         then s5\<lparr> consecutiveViolations := consecutiveViolations s5 + 1,
                  totalViolations := totalViolations s5 + 1 \<rparr>
         else s5\<lparr> consecutiveViolations := 0 \<rparr>)"

text \<open>\<^verbatim>\<open>this.vehicleStates.get(vehicleId) || {...}\<close>: the stored record, or the fresh one.\<close>

definition currentStateOf :: "speedProcessor \<Rightarrow> string \<Rightarrow> vehicleState" where
  "currentStateOf sp vid =
     (case vehicleStates sp vid of Some st \<Rightarrow> st | None \<Rightarrow> newVehicleState vid)"

text \<open>
  \<^verbatim>\<open>updateVehicleState\<close>: look the vehicle up (or start from the fresh record), update,
  store under the vehicle id, return a copy of the stored record.
\<close>

definition updateVehicleState :: "speedProcessor \<Rightarrow> speedData \<Rightarrow> speedProcessor \<times> vehicleState" where
  "updateVehicleState sp d =
     (let st' = updateState (spSpeedLimit sp) (currentStateOf sp (vehicleId d)) d
      in (sp\<lparr> vehicleStates := (vehicleStates sp)(vehicleId d \<mapsto> st') \<rparr>, st'))"

text \<open>
  The calls of \<^verbatim>\<open>updateVehicleState\<close> that successive readings cause, in the order the
  readings were accepted.
\<close>

fun updateVehicleStates :: "speedProcessor \<Rightarrow> speedData list \<Rightarrow> speedProcessor" where
  "updateVehicleStates sp [] = sp"
| "updateVehicleStates sp (d # ds) = updateVehicleStates (fst (updateVehicleState sp d)) ds"

text \<open>The threshold chain of \<^verbatim>\<open>checkSpeedViolation\<close>, on the unrounded percentage.\<close>

definition severityOf :: "rat \<Rightarrow> severity" where
  "severityOf pct =
     (if pct > 50 then CRITICAL
      else if pct > 25 then HIGH
      else if pct > 10 then MEDIUM
      else LOW)"

text \<open>
  \<^verbatim>\<open>checkSpeedViolation\<close>: \<open>None\<close> is the source's \<^verbatim>\<open>null\<close>. \<open>now\<close> is the clock
  reading behind the violation id and \<^verbatim>\<open>detectedAt\<close>. The processor is returned too,
  since the method increments \<^verbatim>\<open>violationCount\<close>.
\<close>

definition checkSpeedViolation ::
  "time \<Rightarrow> speedProcessor \<Rightarrow> speedData \<Rightarrow> vehicleState \<Rightarrow> speedProcessor \<times> violation option" where
  "checkSpeedViolation now sp d st =
     (if speed d \<le> spSpeedLimit sp then (sp, None)
      else
        let sp' = sp\<lparr> violationCount := violationCount sp + 1 \<rparr>;
            amount = speed d - spSpeedLimit sp;
            pct = (amount / spSpeedLimit sp) * 100
        in (sp', Some \<lparr> violationId = (now, vehicleId d),
                        vVehicleId = vehicleId d,
                        vSpeed = speed d,
                        speedLimit = spSpeedLimit sp,
                        exceedAmount = amount,
                        exceedPercentage = toFixed2 pct,
                        vSeverity = severityOf pct,
                        isConsecutive = (consecutiveViolations st \<ge> consecutiveLimit sp),
                        consecutiveCount = consecutiveViolations st,
                        vTimestamp = timestamp d,
                        vLocation = location d,
                        vVehicleType = (if vehicleType d = [] then ''unknown'' else vehicleType d),
                        detectedAt = now \<rparr>))"

section \<open>AlertSystem\<close>

text \<open>The names under which \<^verbatim>\<open>initializeStrategies\<close> registers the four strategies.\<close>

datatype strategy = simple | consecutive | critical | pattern

text \<open>The constructor: empty history, no active alert, capacity 1000, window 30000 ms.\<close>

definition newAlertSystem :: "alert list option \<Rightarrow> alertSystem" where
  "newAlertSystem client =
     \<lparr> alertHistory = [], activeAlerts = Map.empty, maxHistorySize = 1000,
       suppressionWindow = 30000, mqttClient = client \<rparr>"

text \<open>\<^verbatim>\<open>determineStrategy\<close>: severity first, then the streak flag.\<close>

definition determineStrategy :: "violation \<Rightarrow> strategy" where
  "determineStrategy v =
     (if vSeverity v = CRITICAL then critical
      else if isConsecutive v then consecutive
      else simple)"

text \<open>The \<^verbatim>\<open>processViolation\<close> method of each strategy class.\<close>

fun strategyProcessViolation :: "strategy \<Rightarrow> violation \<Rightarrow> alertData" where
  "strategyProcessViolation simple v =
     \<lparr> priority = ''NORMAL'', recommendedAction = ''Monitor vehicle speed'',
       description = ExceededLimitBy (vVehicleId v) (exceedAmount v),
       escalated = False, requiresImmediate = False, patternDetected = False \<rparr>"
| "strategyProcessViolation consecutive v =
     \<lparr> priority = ''HIGH'', recommendedAction = ''Immediate intervention required'',
       description = ConsecutiveViolations (vVehicleId v) (consecutiveCount v),
       escalated = True, requiresImmediate = False, patternDetected = False \<rparr>"
| "strategyProcessViolation critical v =
     \<lparr> priority = ''CRITICAL'', recommendedAction = ''Emergency response required'',
       description = CriticalAt (vVehicleId v) (vSpeed v) (exceedPercentage v),
       escalated = True, requiresImmediate = True, patternDetected = False \<rparr>"
| "strategyProcessViolation pattern v =
     \<lparr> priority = ''MEDIUM'', recommendedAction = ''Pattern analysis required'',
       description = PatternDetected (vVehicleId v),
       escalated = False, requiresImmediate = False, patternDetected = True \<rparr>"

text \<open>
  \<^verbatim>\<open>shouldSuppressAlert\<close>: no entry for the vehicle, no suppression; otherwise the time
  since the entry's \<^verbatim>\<open>lastAlert\<close> is compared with the window, strictly.
\<close>

definition shouldSuppressAlert :: "time \<Rightarrow> alertSystem \<Rightarrow> violation \<Rightarrow> bool" where
  "shouldSuppressAlert now a v =
     (case activeAlerts a (vVehicleId v) of
        None \<Rightarrow> False
      | Some activeAlert \<Rightarrow> now - lastAlert activeAlert < suppressionWindow a)"

definition createAlert :: "time \<Rightarrow> violation \<Rightarrow> alertData \<Rightarrow> alert" where
  "createAlert now v ad =
     \<lparr> alertId = (now, vVehicleId v),
       alertType = ''SPEED_VIOLATION'',
       aSeverity = vSeverity v,
       aVehicleId = vVehicleId v,
       aSpeed = vSpeed v,
       aSpeedLimit = speedLimit v,
       aExceedAmount = exceedAmount v,
       aExceedPercentage = exceedPercentage v,
       aLocation = vLocation v,
       aVehicleType = vVehicleType v,
       aTimestamp = vTimestamp v,
       aDetectedAt = detectedAt v,
       createdAt = now,
       aIsConsecutive = isConsecutive v,
       aConsecutiveCount = consecutiveCount v,
       status = ''ACTIVE'',
       strategyData = ad \<rparr>"

text \<open>
  \<^verbatim>\<open>storeAlert\<close>: \<^verbatim>\<open>unshift\<close> puts the alert at the front, \<^verbatim>\<open>pop\<close> removes the
  last element when the history has grown beyond the capacity, and the vehicle's entry in
  \<^verbatim>\<open>activeAlerts\<close> is overwritten.
\<close>

definition storeAlert :: "time \<Rightarrow> alertSystem \<Rightarrow> alert \<Rightarrow> alertSystem" where
  "storeAlert now a al =
     (let unshifted = al # alertHistory a;
          history = (if length unshifted > maxHistorySize a then butlast unshifted else unshifted)
      in a\<lparr> alertHistory := history,
            activeAlerts := (activeAlerts a)(aVehicleId al \<mapsto>
               \<lparr> lastAlert = now, aaAlertId = alertId al, aaSeverity = aSeverity al \<rparr>) \<rparr>)"

text \<open>
  \<^verbatim>\<open>sendNotifications\<close>: with a client, the alert is published; a publish that throws is
  caught and logged, and leaves no trace in the state.
\<close>

definition sendNotifications :: "bool \<Rightarrow> alertSystem \<Rightarrow> alert \<Rightarrow> alertSystem" where
  "sendNotifications throws a al =
     (case mqttClient a of
        None \<Rightarrow> a
      | Some sent \<Rightarrow> if throws then a else a\<lparr> mqttClient := Some (sent @ [al]) \<rparr>)"

text \<open>
  What \<^verbatim>\<open>AlertSystem.processViolation\<close> returns. Its \<^verbatim>\<open>catch\<close> branch needs a step of
  the \<^verbatim>\<open>try\<close> block to throw; none of the steps above does, the publish failure being
  caught inside \<^verbatim>\<open>sendNotifications\<close>.
\<close>

datatype violationResult = Suppressed | Created alert strategy

definition processViolation :: "env \<Rightarrow> alertSystem \<Rightarrow> violation \<Rightarrow> alertSystem \<times> violationResult" where
  "processViolation e a v =
     (if shouldSuppressAlert (tCheck e) a v then (a, Suppressed)
      else
        let strat = determineStrategy v;
            ad = strategyProcessViolation strat v;
            al = createAlert (tCreate e) v ad;
            a1 = storeAlert (tStore e) a al;
            a2 = sendNotifications (publishThrows e) a1 al
        in (a2, Created al strat))"

section \<open>SpeedProcessor.processSpeedData\<close>

text \<open>
  The validator is a collaborator of the processor (the constructor instantiates
  \<^verbatim>\<open>SpeedDataValidator\<close> while the file imports \<^verbatim>\<open>SimpleSpeedValidator\<close>); the
  model starts from what \<^verbatim>\<open>validateSpeedData\<close> returned for the raw data.
\<close>

datatype validationResult = Invalid "string list" | Valid speedData

datatype processingResult =
    ValidationFailed "string list"
  | ProcessingError
  | Success speedData vehicleState "violation option"

text \<open>
  \<^verbatim>\<open>processSpeedData\<close>. The whole body is one \<^verbatim>\<open>try\<close> block: a
  \<^verbatim>\<open>saveSpeedRecord\<close> that throws is caught by the method's only \<^verbatim>\<open>catch\<close>, which
  returns the processing error, so the statements after the write are not run.
\<close>

definition processSpeedData :: "env \<Rightarrow> validationResult \<Rightarrow> speedProcessor \<Rightarrow> speedProcessor \<times> processingResult" where
  "processSpeedData e validation sp =
     (case validation of
        Invalid errors \<Rightarrow> (sp, ValidationFailed errors)
      | Valid d \<Rightarrow>
          let sp1 = sp\<lparr> processedCount := processedCount sp + 1 \<rparr>;
              (sp2, st) = updateVehicleState sp1 d;
              (sp3, viol) = checkSpeedViolation (tDetect e) sp2 d st;
              sp4 = (case dataStore sp3 of
                       None \<Rightarrow> sp3
                     | Some records \<Rightarrow> sp3\<lparr> dataStore := Some (records @ [(d, \<not> saveThrows e)]) \<rparr>)
          in if dataStore sp3 \<noteq> None \<and> saveThrows e then (sp4, ProcessingError)
             else
               (case (viol, alertSystem sp4) of
                  (Some v, Some a) \<Rightarrow>
                    (sp4\<lparr> alertSystem := Some (fst (processViolation e a v)) \<rparr>, Success d st viol)
                | _ \<Rightarrow> (sp4, Success d st viol)))"

text \<open>
  The alert engine alone, fed a sequence of violations: each call with its own clock
  readings and publish outcome. The results are returned in call order.
\<close>

fun processViolations ::
  "alertSystem \<Rightarrow> (env \<times> violation) list \<Rightarrow> alertSystem \<times> violationResult list" where
  "processViolations a [] = (a, [])"
| "processViolations a ((e, v) # rest) =
     (let (a1, r) = processViolation e a v;
          (a2, rs) = processViolations a1 rest
      in (a2, r # rs))"

section \<open>MqttSpeedProcessor\<close>

text \<open>
  The values a message can be when it reaches \<^verbatim>\<open>handleSpeedMessage\<close>: whatever
  \<^verbatim>\<open>JSON.parse\<close> produced in the client, or the raw string when that failed. An object is
  its list of own properties.
\<close>

datatype jsval =
    JUndefined
  | JNull
  | JBool bool
  | JNum rat
  | JNaN
  | JInfinity bool
  | JStr string
  | JArr "jsval list"
  | JObj "(string \<times> jsval) list"

text \<open>JavaScript truthiness, as \<^verbatim>\<open>!x\<close> and \<^verbatim>\<open>x || y\<close> use it.\<close>

fun truthy :: "jsval \<Rightarrow> bool" where
  "truthy JUndefined = False"
| "truthy JNull = False"
| "truthy (JBool b) = b"
| "truthy (JNum r) = (r \<noteq> 0)"
| "truthy JNaN = False"
| "truthy (JInfinity _) = True"
| "truthy (JStr s) = (s \<noteq> [])"
| "truthy (JArr _) = True"
| "truthy (JObj _) = True"

text \<open>
  Reading a named property of a value that passed the \<^verbatim>\<open>typeof x === 'object'\<close> test:
  an own property of an object, \<^verbatim>\<open>undefined\<close> when there is none; an array has none of
  the names the handler reads.
\<close>

fun getProp :: "jsval \<Rightarrow> string \<Rightarrow> jsval" where
  "getProp (JObj props) k = (case map_of props k of Some v \<Rightarrow> v | None \<Rightarrow> JUndefined)"
| "getProp _ k = JUndefined"

text \<open>\<^verbatim>\<open>String.prototype.trim\<close> on the ASCII white space and line terminators.\<close>

definition isWhiteSpace :: "char \<Rightarrow> bool" where
  "isWhiteSpace c = (c \<in> set [CHR 0x20, CHR 0x09, CHR 0x0A, CHR 0x0B, CHR 0x0C, CHR 0x0D])"

definition trim :: "string \<Rightarrow> string" where
  "trim s = rev (dropWhile isWhiteSpace (rev (dropWhile isWhiteSpace s)))"

text \<open>
  The built-in functions of the language that the handler calls, as parameters:
  \<^verbatim>\<open>JSON.parse\<close> (\<open>None\<close> when it throws a SyntaxError), the conversion
  \<^verbatim>\<open>String(x)\<close>, and \<^verbatim>\<open>Date.prototype.toISOString\<close>.
\<close>

record builtins =
  JSON_parse :: "string \<Rightarrow> jsval option"
  String_of :: "jsval \<Rightarrow> string"
  toISOString :: "time \<Rightarrow> string"

text \<open>The normalized object that \<^verbatim>\<open>parseSpeedMessage\<close> returns.\<close>

record rawSpeedData =
  rVehicleId :: string
  rSpeed :: rat
  rTimestamp :: jsval
  rLocation :: jsval
  rVehicleType :: jsval
  rMetadata :: jsval

text \<open>
  The first \<^verbatim>\<open>if\<close> chain of \<^verbatim>\<open>parseSpeedMessage\<close>: a string is parsed unless it is
  empty or blank, an object (or array) is taken as it is, anything else (also
  \<^verbatim>\<open>null\<close>) is rejected. \<open>None\<close> is the \<^verbatim>\<open>return null\<close>, also the one in the
  \<^verbatim>\<open>catch\<close> that a throwing \<^verbatim>\<open>JSON.parse\<close> reaches.
\<close>

fun parsedMessageOf :: "builtins \<Rightarrow> jsval \<Rightarrow> jsval option" where
  "parsedMessageOf b (JStr s) = (if s = [] \<or> trim s = [] then None else JSON_parse b s)"
| "parsedMessageOf b (JObj props) = Some (JObj props)"
| "parsedMessageOf b (JArr xs) = Some (JArr xs)"
| "parsedMessageOf b _ = None"

text \<open>\<^verbatim>\<open>parsedMessage && typeof parsedMessage === 'object'\<close>.\<close>

fun isObject :: "jsval \<Rightarrow> bool" where
  "isObject (JObj _) = True"
| "isObject (JArr _) = True"
| "isObject _ = False"

text \<open>
  The checks on \<^verbatim>\<open>speed\<close>: \<^verbatim>\<open>typeof speed === 'number'\<close>, not \<^verbatim>\<open>NaN\<close>, and within
  \<open>[0, 500]\<close>, which an infinity is not. \<open>None\<close> when a check fails.
\<close>

fun validSpeed :: "jsval \<Rightarrow> rat option" where
  "validSpeed (JNum r) = (if r < 0 \<or> r > 500 then None else Some r)"
| "validSpeed _ = None"

definition parseSpeedMessage :: "builtins \<Rightarrow> time \<Rightarrow> jsval \<Rightarrow> rawSpeedData option" where
  "parseSpeedMessage b now message =
     (case parsedMessageOf b message of
        None \<Rightarrow> None
      | Some parsedMessage \<Rightarrow>
          if \<not> isObject parsedMessage then None
          else if \<not> truthy (getProp parsedMessage ''vehicleId'') then None
          else
            (case validSpeed (getProp parsedMessage ''speed'') of
               None \<Rightarrow> None
             | Some r \<Rightarrow>
                 Some \<lparr> rVehicleId = trim (String_of b (getProp parsedMessage ''vehicleId'')),
                        rSpeed = r,
                        rTimestamp = (if truthy (getProp parsedMessage ''timestamp'')
                                      then getProp parsedMessage ''timestamp''
                                      else JStr (toISOString b now)),
                        rLocation = (if truthy (getProp parsedMessage ''location'')
                                     then getProp parsedMessage ''location'' else JNull),
                        rVehicleType = (if truthy (getProp parsedMessage ''vehicleType'')
                                        then getProp parsedMessage ''vehicleType''
                                        else JStr ''unknown''),
                        rMetadata = (if truthy (getProp parsedMessage ''metadata'')
                                     then getProp parsedMessage ''metadata'' else JNull) \<rparr>))"

text \<open>
  The message \<^verbatim>\<open>MqttSpeedProcessor.publishAlert\<close> sends to the alert topic; the rendered
  text of \<^verbatim>\<open>message\<close> is left out.
\<close>

record alertMessage =
  amType :: string
  amVehicleId :: string
  amSpeed :: rat
  amSpeedLimit :: rat
  amConsecutiveCount :: "nat option"
  amTimestamp :: time
  amAlertId :: "time \<times> string"
  generatedAt :: time

text \<open>
  The fields of MqttSpeedProcessor. \<^verbatim>\<open>alertTopic\<close> holds the messages that
  \<^verbatim>\<open>publishAlert\<close> delivered to the broker, oldest first.
\<close>

record mqttSpeedProcessor =
  theSpeedProcessor :: speedProcessor
  messageCount :: nat
  errorCount :: nat
  lastMessageTime :: "time option"
  mspSpeedLimit :: rat
  mspConsecutiveLimit :: nat
  alertTopic :: "alertMessage list"

text \<open>
  The constructor: an alert system with the client, a speed processor with that alert
  system and the record repository, and the two limits of the configuration.
\<close>

definition newMqttSpeedProcessor :: "rat \<Rightarrow> nat \<Rightarrow> mqttSpeedProcessor" where
  "newMqttSpeedProcessor limit climit =
     \<lparr> theSpeedProcessor =
         newSpeedProcessor limit climit (Some (newAlertSystem (Some []))) (Some []),
       messageCount = 0, errorCount = 0, lastMessageTime = None,
       mspSpeedLimit = limit, mspConsecutiveLimit = climit, alertTopic = [] \<rparr>"

text \<open>\<^verbatim>\<open>publishAlert\<close>: a publish that throws is caught and logged.\<close>

definition publishAlert :: "time \<Rightarrow> bool \<Rightarrow> mqttSpeedProcessor \<Rightarrow> alertMessage \<Rightarrow> mqttSpeedProcessor" where
  "publishAlert now throws m alertData =
     (if throws then m
      else m\<lparr> alertTopic := alertTopic m @
                 [alertData\<lparr> amAlertId := (now, amVehicleId alertData), generatedAt := now \<rparr>] \<rparr>)"

text \<open>
  \<^verbatim>\<open>generateAlerts\<close>: nothing without a violation; the simple alert when the speed is
  over the limit, then the critical alert when the streak flag is set and the count has
  reached the limit.
\<close>

definition generateAlerts ::
  "env \<Rightarrow> mqttSpeedProcessor \<Rightarrow> speedData \<Rightarrow> violation option \<Rightarrow> mqttSpeedProcessor" where
  "generateAlerts e m d viol =
     (case viol of
        None \<Rightarrow> m
      | Some v \<Rightarrow>
          let m1 = (if vSpeed v > mspSpeedLimit m
                    then publishAlert (tSimple e) (simplePublishThrows e) m
                           \<lparr> amType = ''SIMPLE'', amVehicleId = vVehicleId v, amSpeed = vSpeed v,
                             amSpeedLimit = mspSpeedLimit m, amConsecutiveCount = None,
                             amTimestamp = timestamp d, amAlertId = (0, []), generatedAt = 0 \<rparr>
                    else m)
          in if isConsecutive v \<and> consecutiveCount v \<ge> mspConsecutiveLimit m1
             then publishAlert (tCritical e) (criticalPublishThrows e) m1
                    \<lparr> amType = ''CRITICAL'', amVehicleId = vVehicleId v, amSpeed = vSpeed v,
                      amSpeedLimit = mspSpeedLimit m1,
                      amConsecutiveCount = Some (consecutiveCount v),
                      amTimestamp = timestamp d, amAlertId = (0, []), generatedAt = 0 \<rparr>
             else m1)"

text \<open>
  \<^verbatim>\<open>handleSpeedMessage\<close>. The validator is the function \<open>validate\<close>. The counters are
  updated before the \<^verbatim>\<open>try\<close>; an unparsable message and a failed processing each count
  one error and return. Every call that can throw inside the \<^verbatim>\<open>try\<close> is caught where it
  is made (\<^verbatim>\<open>parseSpeedMessage\<close>, \<^verbatim>\<open>processSpeedData\<close>, \<^verbatim>\<open>publishAlert\<close>), so the
  function is total: the handler returns for every message.
\<close>

definition handleSpeedMessage ::
  "builtins \<Rightarrow> (rawSpeedData \<Rightarrow> validationResult) \<Rightarrow> env \<Rightarrow> mqttSpeedProcessor \<Rightarrow> jsval
     \<Rightarrow> mqttSpeedProcessor" where
  "handleSpeedMessage b validate e m message =
     (let m1 = m\<lparr> lastMessageTime := Some (tMessage e), messageCount := messageCount m + 1 \<rparr>
      in case parseSpeedMessage b (tParse e) message of
           None \<Rightarrow> m1\<lparr> errorCount := errorCount m1 + 1 \<rparr>
         | Some speedData \<Rightarrow>
             let (sp', processingResult) =
                   processSpeedData e (validate speedData) (theSpeedProcessor m1);
                 m2 = m1\<lparr> theSpeedProcessor := sp' \<rparr>
             in (case processingResult of
                   Success d st viol \<Rightarrow> generateAlerts e m2 d viol
                 | _ \<Rightarrow> m2\<lparr> errorCount := errorCount m2 + 1 \<rparr>))"

text \<open>The stream: the handler runs on one message after the other.\<close>

fun handleSpeedMessages ::
  "builtins \<Rightarrow> (rawSpeedData \<Rightarrow> validationResult) \<Rightarrow> mqttSpeedProcessor \<Rightarrow> (env \<times> jsval) list
     \<Rightarrow> mqttSpeedProcessor" where
  "handleSpeedMessages b validate m [] = m"
| "handleSpeedMessages b validate m ((e, message) # rest) =
     handleSpeedMessages b validate (handleSpeedMessage b validate e m message) rest"

section \<open>Example inputs\<close>

text \<open>A reading of a car with no location, taken at time 0.\<close>

definition exampleReading :: "string \<Rightarrow> rat \<Rightarrow> speedData" where
  "exampleReading vid s =
     \<lparr> vehicleId = vid, speed = s, timestamp = 0, location = None, vehicleType = ''car'' \<rparr>"

text \<open>A processor with the default configuration (limit 60, threshold 3), no collaborators.\<close>

definition exampleProcessor :: speedProcessor where
  "exampleProcessor = newSpeedProcessor 60 3 None None"

text \<open>A message during which every clock reading is \<open>t\<close> and no collaborator throws.\<close>

definition exampleEnv :: "time \<Rightarrow> env" where
  "exampleEnv t =
     \<lparr> tMessage = t, tParse = t, tDetect = t, saveThrows = False, tCheck = t, tCreate = t,
       tStore = t, publishThrows = False, tSimple = t, simplePublishThrows = False,
       tCritical = t, criticalPublishThrows = False \<rparr>"

text \<open>The violation that the example processor reports for a reading of a vehicle without state.\<close>

definition exampleViolation :: "string \<Rightarrow> rat \<Rightarrow> violation" where
  "exampleViolation vid s =
     the (snd (checkSpeedViolation 0 exampleProcessor (exampleReading vid s) (newVehicleState vid)))"

text \<open>
  Stand-ins for the built-ins: a parser that agrees with \<^verbatim>\<open>JSON.parse\<close> on the two texts
  the examples use (it accepts the complete object and rejects everything else, the
  truncated text too), the string conversion on strings, and an empty rendering of dates.
\<close>

definition exampleBuiltins :: builtins where
  \<open>exampleBuiltins =
     \<lparr> JSON_parse = (\<lambda>s. if s = ''{"vehicleId":"X"}'' then Some (JObj [(''vehicleId'', JStr ''X'')])
                          else None),
       String_of = (\<lambda>v. case v of JStr s \<Rightarrow> s | _ \<Rightarrow> []),
       toISOString = (\<lambda>t. []) \<rparr>\<close>

text \<open>
  A stand-in for the validator: the length check on the vehicle id, and a reading with the
  vehicle and speed of the parsed message.
\<close>

definition exampleValidate :: "rawSpeedData \<Rightarrow> validationResult" where
  "exampleValidate raw =
     (if length (rVehicleId raw) < 3 \<or> length (rVehicleId raw) > 20
      then Invalid [''vehicleId'']
      else Valid (exampleReading (rVehicleId raw) (rSpeed raw)))"

text \<open>A well-formed message, as an object, and what \<^verbatim>\<open>parseSpeedMessage\<close> makes of it.\<close>

definition exampleMessage :: "string \<Rightarrow> rat \<Rightarrow> jsval" where
  "exampleMessage vid s = JObj [(''vehicleId'', JStr vid), (''speed'', JNum s)]"

definition exampleRaw :: "string \<Rightarrow> rat \<Rightarrow> rawSpeedData" where
  "exampleRaw vid s =
     \<lparr> rVehicleId = vid, rSpeed = s, rTimestamp = JStr [], rLocation = JNull,
       rVehicleType = JStr ''unknown'', rMetadata = JNull \<rparr>"

section \<open>The violation classifier\<close>

lemma checkSpeedViolation_Some:
  "spSpeedLimit sp < speed d \<Longrightarrow>
   snd (checkSpeedViolation now sp d st) =
     Some \<lparr> violationId = (now, vehicleId d), vVehicleId = vehicleId d, vSpeed = speed d,
            speedLimit = spSpeedLimit sp, exceedAmount = speed d - spSpeedLimit sp,
            exceedPercentage = toFixed2 ((speed d - spSpeedLimit sp) / spSpeedLimit sp * 100),
            vSeverity = severityOf ((speed d - spSpeedLimit sp) / spSpeedLimit sp * 100),
            isConsecutive = (consecutiveLimit sp \<le> consecutiveViolations st),
            consecutiveCount = consecutiveViolations st, vTimestamp = timestamp d,
            vLocation = location d,
            vVehicleType = (if vehicleType d = [] then ''unknown'' else vehicleType d),
            detectedAt = now \<rparr>"
  by (simp add: checkSpeedViolation_def Let_def)

lemma checkSpeedViolation_None:
  "speed d \<le> spSpeedLimit sp \<Longrightarrow> checkSpeedViolation now sp d st = (sp, None)"
  by (simp add: checkSpeedViolation_def)









section \<open>The vehicle state tracker\<close>

lemma updateState_recordCount [simp]:
  "recordCount (updateState L s d) = recordCount s + 1"
  by (simp add: updateState_def Let_def)

lemma updateState_consecutive [simp]:
  "consecutiveViolations (updateState L s d) =
     (if L < speed d then consecutiveViolations s + 1 else 0)"
  by (simp add: updateState_def Let_def)

lemma updateState_total [simp]:
  "totalViolations (updateState L s d) =
     (if L < speed d then totalViolations s + 1 else totalViolations s)"
  by (simp add: updateState_def Let_def)

lemma updateState_average:
  "averageSpeed (updateState L s d) * of_nat (recordCount s + 1) =
     averageSpeed s * of_nat (recordCount s) + speed d"
  by (simp add: updateState_def Let_def)

lemma updateState_history:
  "speedHistory (updateState L s d) =
     (if length (speedHistory s) \<ge> 10 then tl (speedHistory s @ [(speed d, timestamp d)])
      else speedHistory s @ [(speed d, timestamp d)])"
  by (auto simp add: updateState_def Let_def)

lemma updateVehicleState_limit [simp]:
  "spSpeedLimit (fst (updateVehicleState sp d)) = spSpeedLimit sp"
  by (simp add: updateVehicleState_def Let_def)

lemma updateVehicleState_states:
  "vehicleStates (fst (updateVehicleState sp d)) =
     (vehicleStates sp)(vehicleId d \<mapsto> updateState (spSpeedLimit sp) (currentStateOf sp (vehicleId d)) d)"
  by (simp add: updateVehicleState_def Let_def)

lemma updateVehicleState_snapshot:
  "snd (updateVehicleState sp d) = currentStateOf (fst (updateVehicleState sp d)) (vehicleId d)"
  by (simp add: updateVehicleState_def Let_def currentStateOf_def)

lemma updateVehicleState_current:
  "currentStateOf (fst (updateVehicleState sp d)) vid =
     (if vehicleId d = vid then updateState (spSpeedLimit sp) (currentStateOf sp vid) d
      else currentStateOf sp vid)"
  by (auto simp add: updateVehicleState_states currentStateOf_def)

lemma updateVehicleStates_limit [simp]:
  "spSpeedLimit (updateVehicleStates sp ds) = spSpeedLimit sp"
  by (induction ds arbitrary: sp) simp_all

lemma updateVehicleStates_append:
  "updateVehicleStates sp (ds @ es) = updateVehicleStates (updateVehicleStates sp ds) es"
  by (induction ds arbitrary: sp) simp_all

lemma updateVehicleStates_current:
  "currentStateOf (updateVehicleStates sp ds) vid =
     foldl (updateState (spSpeedLimit sp)) (currentStateOf sp vid)
       (filter (\<lambda>d. vehicleId d = vid) ds)"
  by (induction ds arbitrary: sp) (simp_all add: updateVehicleState_current)

lemma updateVehicleStates_stored:
  "vehicleStates (updateVehicleStates sp ds) vid =
     (if filter (\<lambda>d. vehicleId d = vid) ds = [] then vehicleStates sp vid
      else Some (currentStateOf (updateVehicleStates sp ds) vid))"
proof (induction ds rule: rev_induct)
  case Nil
  then show ?case by simp
next
  case (snoc d ds)
  show ?case
    by (simp add: updateVehicleStates_append updateVehicleState_states
        updateVehicleState_current snoc)
qed

lemma foldl_recordCount:
  "recordCount (foldl (updateState L) s ds) = recordCount s + length ds"
  by (induction ds arbitrary: s) simp_all

lemma foldl_total:
  "totalViolations (foldl (updateState L) s ds) =
     totalViolations s + length (filter (\<lambda>d. L < speed d) ds)"
  by (induction ds arbitrary: s) simp_all

lemma foldl_consecutive:
  "\<forall>d \<in> set ds. L < speed d \<Longrightarrow>
   consecutiveViolations (foldl (updateState L) s ds) = consecutiveViolations s + length ds"
  by (induction ds arbitrary: s) simp_all

lemma foldl_average:
  "averageSpeed (foldl (updateState L) s ds) * of_nat (recordCount s + length ds) =
     averageSpeed s * of_nat (recordCount s) + sum_list (map speed ds)"
proof (induction ds rule: rev_induct)
  case Nil
  then show ?case by simp
next
  case (snoc d ds)
  have "averageSpeed (updateState L (foldl (updateState L) s ds) d)
          * of_nat (recordCount (foldl (updateState L) s ds) + 1) =
        averageSpeed (foldl (updateState L) s ds) * of_nat (recordCount (foldl (updateState L) s ds))
          + speed d"
    by (rule updateState_average)
  then show ?case using snoc by (simp add: foldl_recordCount add.assoc)
qed

lemma drop_snoc_last10:
  assumes "10 \<le> length xs"
  shows "tl (drop (length xs - 10) xs @ [x]) = drop (Suc (length xs) - 10) (xs @ [x])"
proof -
  have ne: "drop (length xs - 10) xs \<noteq> []" using assms by simp
  have "tl (drop (length xs - 10) xs @ [x]) = tl (drop (length xs - 10) xs) @ [x]"
    using ne by (simp add: tl_append2)
  also have "tl (drop (length xs - 10) xs) = drop (Suc (length xs - 10)) xs"
    by (simp add: drop_Suc tl_drop)
  also have "Suc (length xs - 10) = Suc (length xs) - 10" using assms by simp
  finally show ?thesis using assms by simp
qed

lemma last10_snoc:
  "(if 10 \<le> length (drop (length xs - 10) xs) then tl (drop (length xs - 10) xs @ [x])
    else drop (length xs - 10) xs @ [x]) = drop (length (xs @ [x]) - 10) (xs @ [x])"
proof (cases "10 \<le> length xs")
  case True
  then show ?thesis using drop_snoc_last10[OF True, of x] by simp
next
  case False
  then show ?thesis by simp
qed

lemma foldl_history:
  "length (speedHistory s) \<le> 10 \<Longrightarrow>
   speedHistory (foldl (updateState L) s ds) =
     drop (length (speedHistory s @ map (\<lambda>d. (speed d, timestamp d)) ds) - 10)
       (speedHistory s @ map (\<lambda>d. (speed d, timestamp d)) ds)"
proof (induction ds rule: rev_induct)
  case Nil
  then show ?case by simp
next
  case (snoc d ds)
  let ?all = "speedHistory s @ map (\<lambda>d. (speed d, timestamp d)) ds"
  have ih: "speedHistory (foldl (updateState L) s ds) = drop (length ?all - 10) ?all"
    using snoc by simp
  have "speedHistory (foldl (updateState L) s (ds @ [d])) =
          (if 10 \<le> length (drop (length ?all - 10) ?all)
           then tl (drop (length ?all - 10) ?all @ [(speed d, timestamp d)])
           else drop (length ?all - 10) ?all @ [(speed d, timestamp d)])"
    by (simp only: foldl_append foldl.simps updateState_history ih)
  also have "\<dots> = drop (length (?all @ [(speed d, timestamp d)]) - 10) (?all @ [(speed d, timestamp d)])"
    by (rule last10_snoc)
  finally show ?case by simp
qed

lemma currentStateOf_fresh:
  "vehicleStates sp vid = None \<Longrightarrow> currentStateOf sp vid = newVehicleState vid"
  by (simp add: currentStateOf_def)

text \<open>
  C4. For a vehicle the processor has no state for, \<open>N\<close> readings over the limit leave the
  consecutive counter (and the lifetime counter) at \<open>N\<close>; one more reading at or under the
  limit sets the consecutive counter to 0 and leaves the lifetime counter at \<open>N\<close>; the same
  \<open>N\<close> readings after that reset bring the consecutive counter back to \<open>N\<close>; and after
  any further readings \<open>rs\<close>, of any vehicles, the lifetime counter is \<open>N\<close> plus the number
  of this vehicle's readings in \<open>rs\<close> that are over the limit.
\<close>

theorem consecutive_counting:
  assumes fresh: "vehicleStates sp vid = None"
      and viol: "\<forall>d \<in> set ds. vehicleId d = vid \<and> spSpeedLimit sp < speed d"
      and ok: "vehicleId d' = vid" "speed d' \<le> spSpeedLimit sp"
  shows "consecutiveViolations (currentStateOf (updateVehicleStates sp ds) vid) = length ds
       \<and> totalViolations (currentStateOf (updateVehicleStates sp ds) vid) = length ds
       \<and> consecutiveViolations (currentStateOf (updateVehicleStates sp (ds @ [d'])) vid) = 0
       \<and> totalViolations (currentStateOf (updateVehicleStates sp (ds @ [d'])) vid) = length ds
       \<and> consecutiveViolations (currentStateOf (updateVehicleStates sp (ds @ [d'] @ ds)) vid)
           = length ds
       \<and> totalViolations (currentStateOf (updateVehicleStates sp (ds @ [d'] @ rs)) vid)
           = length ds
             + length (filter (\<lambda>d. vehicleId d = vid \<and> spSpeedLimit sp < speed d) rs)"
proof -
  let ?L = "spSpeedLimit sp"
  let ?f = "updateState ?L"
  let ?s0 = "newVehicleState vid"
  have all: "filter (\<lambda>d. vehicleId d = vid) ds = ds" using viol by (simp add: filter_id_conv)
  have allv: "filter (\<lambda>d. ?L < speed d) ds = ds" using viol by (simp add: filter_id_conv)
  have v: "\<forall>d \<in> set ds. ?L < speed d" using viol by simp
  have z: "consecutiveViolations ?s0 = 0" "totalViolations ?s0 = 0"
    by (simp_all add: newVehicleState_def)
  have c1: "consecutiveViolations (foldl ?f ?s0 ds) = length ds"
    using foldl_consecutive[OF v, of ?s0] z by simp
  have t1: "totalViolations (foldl ?f ?s0 ds) = length ds"
    using foldl_total[of ?L ?s0 ds] z allv by simp
  have c2: "consecutiveViolations (?f (foldl ?f ?s0 ds) d') = 0" using ok by simp
  have t2: "totalViolations (?f (foldl ?f ?s0 ds) d') = length ds" using ok t1 by simp
  have c3: "consecutiveViolations (foldl ?f (?f (foldl ?f ?s0 ds) d') ds) = length ds"
    using foldl_consecutive[OF v, of "?f (foldl ?f ?s0 ds) d'"] c2 by simp
  have t3: "totalViolations (foldl ?f (?f (foldl ?f ?s0 ds) d') (filter (\<lambda>d. vehicleId d = vid) rs))
      = length ds + length (filter (\<lambda>d. ?L < speed d) (filter (\<lambda>d. vehicleId d = vid) rs))"
    using foldl_total[of ?L "?f (foldl ?f ?s0 ds) d'" "filter (\<lambda>d. vehicleId d = vid) rs"] t2
    by simp
  show ?thesis
    using c1 t1 c2 t2 c3 t3 all ok(1)
    by (simp add: updateVehicleStates_current currentStateOf_fresh[OF fresh] conj_commute)
qed

text \<open>
  The theorem for VEH003 at limit 60: 65, 67.5 and 70 give counter 3, a following 60 gives
  0, and with a 90 of another vehicle and an 80 of this one afterwards the lifetime counter
  is 4.
\<close>

theorem consecutive_counting_witness:
  "vehicleStates exampleProcessor ''VEH003'' = None
   \<and> list_all (\<lambda>d. vehicleId d = ''VEH003'' \<and> spSpeedLimit exampleProcessor < speed d)
         [exampleReading ''VEH003'' 65, exampleReading ''VEH003'' (135 / 2),
          exampleReading ''VEH003'' 70]
   \<and> vehicleId (exampleReading ''VEH003'' 60) = ''VEH003''
   \<and> speed (exampleReading ''VEH003'' 60) \<le> spSpeedLimit exampleProcessor
   \<and> consecutiveViolations (currentStateOf (updateVehicleStates exampleProcessor
         [exampleReading ''VEH003'' 65, exampleReading ''VEH003'' (135 / 2),
          exampleReading ''VEH003'' 70]) ''VEH003'') = 3
   \<and> consecutiveViolations (currentStateOf (updateVehicleStates exampleProcessor
         ([exampleReading ''VEH003'' 65, exampleReading ''VEH003'' (135 / 2),
           exampleReading ''VEH003'' 70] @ [exampleReading ''VEH003'' 60])) ''VEH003'') = 0
   \<and> totalViolations (currentStateOf (updateVehicleStates exampleProcessor
         ([exampleReading ''VEH003'' 65, exampleReading ''VEH003'' (135 / 2),
           exampleReading ''VEH003'' 70] @ [exampleReading ''VEH003'' 60]
           @ [exampleReading ''VEH001'' 90, exampleReading ''VEH003'' 80])) ''VEH003'') = 4"
proof -
  have e: "spSpeedLimit exampleProcessor = 60" "vehicleStates exampleProcessor ''VEH003'' = None"
    "\<And>vid s. vehicleId (exampleReading vid s) = vid" "\<And>vid s. speed (exampleReading vid s) = s"
    by (simp_all add: exampleProcessor_def newSpeedProcessor_def exampleReading_def)
  show ?thesis
    using consecutive_counting[of exampleProcessor "''VEH003''"
        "[exampleReading ''VEH003'' 65, exampleReading ''VEH003'' (135 / 2),
          exampleReading ''VEH003'' 70]"
        "exampleReading ''VEH003'' 60"
        "[exampleReading ''VEH001'' 90, exampleReading ''VEH003'' 80]"]
    by (simp add: e)
qed

text \<open>
  C5. The violation of a reading over the limit has its streak flag set exactly when the
  snapshot's consecutive counter has reached the configured threshold, and its streak length
  is that counter. For a vehicle without state, the violation of the reading that follows
  \<open>n\<close> readings over the limit has streak length \<open>n + 1\<close> (not capped) and its flag is
  set exactly when the threshold is at most \<open>n + 1\<close>: with threshold 3, not for the first
  and second reading, but for the third.
\<close>

theorem streak_flag:
  assumes fresh: "vehicleStates sp vid = None"
      and viol: "\<forall>d \<in> set ds. vehicleId d = vid \<and> spSpeedLimit sp < speed d"
      and last: "vehicleId d = vid" "spSpeedLimit sp < speed d"
  shows "map_option isConsecutive (snd (checkSpeedViolation now sp d st))
           = Some (consecutiveLimit sp \<le> consecutiveViolations st)
       \<and> map_option consecutiveCount (snd (checkSpeedViolation now sp d st))
           = Some (consecutiveViolations st)
       \<and> map_option consecutiveCount
           (snd (checkSpeedViolation now (fst (updateVehicleState (updateVehicleStates sp ds) d)) d
                  (snd (updateVehicleState (updateVehicleStates sp ds) d))))
           = Some (length ds + 1)
       \<and> map_option isConsecutive
           (snd (checkSpeedViolation now (fst (updateVehicleState (updateVehicleStates sp ds) d)) d
                  (snd (updateVehicleState (updateVehicleStates sp ds) d))))
           = Some (consecutiveLimit sp \<le> length ds + 1)"
proof -
  let ?sp = "updateVehicleStates sp ds"
  have all: "filter (\<lambda>d. vehicleId d = vid) ds = ds" using viol by (simp add: filter_id_conv)
  have v: "\<forall>d \<in> set ds. spSpeedLimit sp < speed d" using viol by simp
  have c: "consecutiveViolations (currentStateOf ?sp vid) = length ds"
    using foldl_consecutive[OF v, of "newVehicleState vid"]
    by (simp add: updateVehicleStates_current currentStateOf_fresh[OF fresh] all newVehicleState_def)
  have snap: "consecutiveViolations (snd (updateVehicleState ?sp d)) = length ds + 1"
    using last c by (simp add: updateVehicleState_snapshot updateVehicleState_current)
  have cl: "consecutiveLimit (fst (updateVehicleState ?sp d)) = consecutiveLimit sp"
    by (induction ds arbitrary: sp) (simp_all add: updateVehicleState_def Let_def)
  show ?thesis using last(2) snap cl
    by (simp add: checkSpeedViolation_Some)
qed
text \<open>
  The theorem with threshold 3 for the readings 65, 67.5, 70 of VEH003: the flag is not
  set for the first and the second, and set for the third.
\<close>

theorem streak_flag_witness:
  "vehicleStates exampleProcessor ''VEH003'' = None
   \<and> consecutiveLimit exampleProcessor = 3
   \<and> vehicleId (exampleReading ''VEH003'' 65) = ''VEH003''
   \<and> spSpeedLimit exampleProcessor < speed (exampleReading ''VEH003'' 65)
   \<and> map_option isConsecutive
       (snd (checkSpeedViolation 0
          (fst (updateVehicleState (updateVehicleStates exampleProcessor []) (exampleReading ''VEH003'' 65)))
          (exampleReading ''VEH003'' 65)
          (snd (updateVehicleState (updateVehicleStates exampleProcessor []) (exampleReading ''VEH003'' 65)))))
       = Some False
   \<and> map_option isConsecutive
       (snd (checkSpeedViolation 0
          (fst (updateVehicleState (updateVehicleStates exampleProcessor [exampleReading ''VEH003'' 65])
                 (exampleReading ''VEH003'' (135 / 2))))
          (exampleReading ''VEH003'' (135 / 2))
          (snd (updateVehicleState (updateVehicleStates exampleProcessor [exampleReading ''VEH003'' 65])
                 (exampleReading ''VEH003'' (135 / 2))))))
       = Some False
   \<and> map_option isConsecutive
       (snd (checkSpeedViolation 0
          (fst (updateVehicleState (updateVehicleStates exampleProcessor
                    [exampleReading ''VEH003'' 65, exampleReading ''VEH003'' (135 / 2)])
                 (exampleReading ''VEH003'' 70)))
          (exampleReading ''VEH003'' 70)
          (snd (updateVehicleState (updateVehicleStates exampleProcessor
                    [exampleReading ''VEH003'' 65, exampleReading ''VEH003'' (135 / 2)])
                 (exampleReading ''VEH003'' 70)))))
       = Some True"
proof -
  have e: "spSpeedLimit exampleProcessor = 60" "vehicleStates exampleProcessor ''VEH003'' = None"
    "consecutiveLimit exampleProcessor = 3"
    "\<And>vid s. vehicleId (exampleReading vid s) = vid" "\<And>vid s. speed (exampleReading vid s) = s"
    by (simp_all add: exampleProcessor_def newSpeedProcessor_def exampleReading_def)
  show ?thesis
    using streak_flag[of exampleProcessor "''VEH003''" "[]" "exampleReading ''VEH003'' 65" 0]
      streak_flag[of exampleProcessor "''VEH003''" "[exampleReading ''VEH003'' 65]"
        "exampleReading ''VEH003'' (135 / 2)" 0]
      streak_flag[of exampleProcessor "''VEH003''"
        "[exampleReading ''VEH003'' 65, exampleReading ''VEH003'' (135 / 2)]"
        "exampleReading ''VEH003'' 70" 0]
    by (simp add: e)
qed

text \<open>
  C9. After any sequence of readings, of any vehicles, a vehicle that had no state before
  and has at least one reading in the sequence has: as record count the number of its
  readings, as average speed the arithmetic mean of their speeds, and as history the last
  ten of their speeds in the order of arrival (all of them when there are fewer).
\<close>

theorem running_statistics:
  assumes "vehicleStates sp vid = None"
      and "filter (\<lambda>d. vehicleId d = vid) rs \<noteq> []"
  shows "\<exists>s. vehicleStates (updateVehicleStates sp rs) vid = Some s
           \<and> recordCount s = length (filter (\<lambda>d. vehicleId d = vid) rs)
           \<and> averageSpeed s =
               sum_list (map speed (filter (\<lambda>d. vehicleId d = vid) rs))
                 / of_nat (length (filter (\<lambda>d. vehicleId d = vid) rs))
           \<and> map fst (speedHistory s) =
               drop (length (filter (\<lambda>d. vehicleId d = vid) rs) - 10)
                 (map speed (filter (\<lambda>d. vehicleId d = vid) rs))
           \<and> length (speedHistory s) \<le> 10"
proof -
  let ?ds = "filter (\<lambda>d. vehicleId d = vid) rs"
  let ?s = "foldl (updateState (spSpeedLimit sp)) (newVehicleState vid) ?ds"
  have cur: "currentStateOf (updateVehicleStates sp rs) vid = ?s"
    by (simp add: updateVehicleStates_current currentStateOf_fresh[OF assms(1)])
  have stored: "vehicleStates (updateVehicleStates sp rs) vid = Some ?s"
    using assms(2) by (simp add: updateVehicleStates_stored cur)
  have rc: "recordCount ?s = length ?ds"
    by (simp add: foldl_recordCount newVehicleState_def)
  have "averageSpeed ?s * of_nat (recordCount (newVehicleState vid) + length ?ds) =
          averageSpeed (newVehicleState vid) * of_nat (recordCount (newVehicleState vid))
            + sum_list (map speed ?ds)"
    by (rule foldl_average)
  then have "averageSpeed ?s * of_nat (length ?ds) = sum_list (map speed ?ds)"
    by (simp add: newVehicleState_def)
  moreover have "(of_nat (length ?ds) :: rat) \<noteq> 0" using assms(2) by simp
  ultimately have avg: "averageSpeed ?s = sum_list (map speed ?ds) / of_nat (length ?ds)"
    by (simp add: nonzero_eq_divide_eq)
  have h: "speedHistory ?s =
      drop (length (map (\<lambda>d. (speed d, timestamp d)) ?ds) - 10) (map (\<lambda>d. (speed d, timestamp d)) ?ds)"
    using foldl_history[of "newVehicleState vid" "spSpeedLimit sp" ?ds]
    by (simp add: newVehicleState_def)
  have hist: "map fst (speedHistory ?s) = drop (length ?ds - 10) (map speed ?ds)"
    unfolding h by (simp add: drop_map comp_def)
  have len: "length (speedHistory ?s) \<le> 10"
    unfolding h by simp
  show ?thesis using stored rc avg hist len by blast
qed

text \<open>
  The theorem for eleven readings 10, 20, ..., 100, 120 of VEH003: the count is 11, the
  average 670/11, and the history has lost the first reading.
\<close>

theorem running_statistics_witness:
  "vehicleStates exampleProcessor ''VEH003'' = None
   \<and> filter (\<lambda>d. vehicleId d = ''VEH003'') (map (\<lambda>s. exampleReading ''VEH003'' s) [10, 20, 30, 40, 50, 60, 70, 80, 90, 100, 120]) \<noteq> []
   \<and> map_option recordCount (vehicleStates (updateVehicleStates exampleProcessor
         (map (\<lambda>s. exampleReading ''VEH003'' s) [10, 20, 30, 40, 50, 60, 70, 80, 90, 100, 120])) ''VEH003'')
       = Some 11
   \<and> map_option averageSpeed (vehicleStates (updateVehicleStates exampleProcessor
         (map (\<lambda>s. exampleReading ''VEH003'' s) [10, 20, 30, 40, 50, 60, 70, 80, 90, 100, 120])) ''VEH003'')
       = Some (670 / 11)
   \<and> map_option (map fst \<circ> speedHistory) (vehicleStates (updateVehicleStates exampleProcessor
         (map (\<lambda>s. exampleReading ''VEH003'' s) [10, 20, 30, 40, 50, 60, 70, 80, 90, 100, 120])) ''VEH003'')
       = Some [20, 30, 40, 50, 60, 70, 80, 90, 100, 120]"
proof -
  have e: "vehicleStates exampleProcessor ''VEH003'' = None"
    "\<And>vid s. vehicleId (exampleReading vid s) = vid" "\<And>vid s. speed (exampleReading vid s) = s"
    by (simp_all add: exampleProcessor_def newSpeedProcessor_def exampleReading_def)
  show ?thesis
    using running_statistics[of exampleProcessor "''VEH003''"
        "map (\<lambda>s. exampleReading ''VEH003'' s) [10, 20, 30, 40, 50, 60, 70, 80, 90, 100, 120]"]
    by (auto simp add: e)
qed

section \<open>The alert engine\<close>

lemma storeAlert_maxHistorySize [simp]:
  "maxHistorySize (storeAlert now a al) = maxHistorySize a"
  by (simp add: storeAlert_def Let_def)

lemma sendNotifications_fields [simp]:
  "maxHistorySize (sendNotifications t a al) = maxHistorySize a"
  "alertHistory (sendNotifications t a al) = alertHistory a"
  "activeAlerts (sendNotifications t a al) = activeAlerts a"
  "suppressionWindow (sendNotifications t a al) = suppressionWindow a"
  by (simp_all add: sendNotifications_def split: option.splits)

lemma storeAlert_history:
  "length (alertHistory a) \<le> maxHistorySize a \<Longrightarrow>
   alertHistory (storeAlert now a al) = take (maxHistorySize a) (al # alertHistory a)"
proof (cases "maxHistorySize a < length (al # alertHistory a)")
  case True
  assume "length (alertHistory a) \<le> maxHistorySize a"
  with True have "maxHistorySize a = length (al # alertHistory a) - 1" by simp
  then have "take (maxHistorySize a) (al # alertHistory a) = butlast (al # alertHistory a)"
    by (simp only: butlast_conv_take)
  then show ?thesis using True by (simp add: storeAlert_def Let_def)
next
  case False
  then have "take (maxHistorySize a) (al # alertHistory a) = al # alertHistory a"
    by (simp only: take_all_iff not_less)
  then show ?thesis using False by (simp add: storeAlert_def Let_def)
qed

lemma storeAlert_fields [simp]:
  "suppressionWindow (storeAlert now a al) = suppressionWindow a"
  "activeAlerts (storeAlert now a al) =
     (activeAlerts a)(aVehicleId al \<mapsto>
        \<lparr> lastAlert = now, aaAlertId = alertId al, aaSeverity = aSeverity al \<rparr>)"
  by (simp_all add: storeAlert_def Let_def)

lemma processViolation_maxHistorySize [simp]:
  "maxHistorySize (fst (processViolation e a v)) = maxHistorySize a"
  by (simp add: processViolation_def Let_def)

lemma processViolation_bounded:
  "length (alertHistory a) \<le> maxHistorySize a \<Longrightarrow>
   length (alertHistory (fst (processViolation e a v))) \<le> maxHistorySize a"
  by (simp add: processViolation_def Let_def storeAlert_history)

lemma processViolations_maxHistorySize [simp]:
  "maxHistorySize (fst (processViolations a calls)) = maxHistorySize a"
  by (induction calls arbitrary: a) (auto simp add: split_beta Let_def)

lemma processViolations_bounded:
  "length (alertHistory a) \<le> maxHistorySize a \<Longrightarrow>
   length (alertHistory (fst (processViolations a calls))) \<le> maxHistorySize a"
proof (induction calls arbitrary: a)
  case Nil
  then show ?case by simp
next
  case (Cons c calls)
  obtain e v where c: "c = (e, v)" by (cases c)
  have "length (alertHistory (fst (processViolation e a v))) \<le> maxHistorySize (fst (processViolation e a v))"
    using processViolation_bounded[OF Cons.prems] by simp
  from Cons.IH[OF this] show ?case by (simp add: c split_beta Let_def)
qed

lemma processViolation_not_suppressed:
  "\<not> shouldSuppressAlert (tCheck e) a v \<Longrightarrow>
   processViolation e a v =
     (sendNotifications (publishThrows e)
        (storeAlert (tStore e) a
           (createAlert (tCreate e) v (strategyProcessViolation (determineStrategy v) v)))
        (createAlert (tCreate e) v (strategyProcessViolation (determineStrategy v) v)),
      Created (createAlert (tCreate e) v (strategyProcessViolation (determineStrategy v) v))
        (determineStrategy v))"
  by (simp add: processViolation_def Let_def)

lemma processViolation_suppressed:
  "shouldSuppressAlert (tCheck e) a v \<Longrightarrow> processViolation e a v = (a, Suppressed)"
  by (simp add: processViolation_def)

lemma createAlert_vehicle [simp]: "aVehicleId (createAlert now v ad) = vVehicleId v"
  by (simp add: createAlert_def)

lemma shouldSuppress_after_create:
  assumes "\<not> shouldSuppressAlert (tCheck e1) a v1" and "vVehicleId v2 = vVehicleId v1"
  shows "shouldSuppressAlert t (fst (processViolation e1 a v1)) v2 =
           (t - tStore e1 < suppressionWindow a)"
  using assms(2)
  by (simp add: processViolation_not_suppressed[OF assms(1)] shouldSuppressAlert_def)

lemma exampleViolation_fields:
  "60 < s \<Longrightarrow> vVehicleId (exampleViolation vid s) = vid"
  "60 < s \<Longrightarrow> vSeverity (exampleViolation vid s) = severityOf ((s - 60) / 60 * 100)"
  by (simp_all add: exampleViolation_def checkSpeedViolation_Some exampleProcessor_def
      newSpeedProcessor_def exampleReading_def)

text \<open>
  C3. Two violations of the same vehicle, the first of which is not suppressed. The first
  call creates an alert. The second call is suppressed exactly when its clock reading is
  less than the suppression window after the time the first alert was stored: then it
  returns the alert system unchanged (so the vehicle's active-alert entry too), whatever
  the severities of the two violations, and the two calls have produced one alert. Otherwise
  (the window or more has passed) the second call creates an alert as well, and the two
  calls have produced two.
\<close>

theorem suppression_window:
  assumes same: "vVehicleId v2 = vVehicleId v1"
      and first: "\<not> shouldSuppressAlert (tCheck e1) a v1"
  shows "snd (processViolation e1 a v1) =
           Created (createAlert (tCreate e1) v1 (strategyProcessViolation (determineStrategy v1) v1))
             (determineStrategy v1)
       \<and> processViolation e2 (fst (processViolation e1 a v1)) v2 =
           (if tCheck e2 - tStore e1 < suppressionWindow a
            then (fst (processViolation e1 a v1), Suppressed)
            else (sendNotifications (publishThrows e2)
                    (storeAlert (tStore e2) (fst (processViolation e1 a v1))
                       (createAlert (tCreate e2) v2
                          (strategyProcessViolation (determineStrategy v2) v2)))
                    (createAlert (tCreate e2) v2
                       (strategyProcessViolation (determineStrategy v2) v2)),
                  Created (createAlert (tCreate e2) v2
                             (strategyProcessViolation (determineStrategy v2) v2))
                    (determineStrategy v2)))
       \<and> length (filter (\<lambda>r. r \<noteq> Suppressed) (snd (processViolations a [(e1, v1), (e2, v2)])))
           = (if tCheck e2 - tStore e1 < suppressionWindow a then 1 else 2)"
proof -
  let ?a1 = "fst (processViolation e1 a v1)"
  have r1: "snd (processViolation e1 a v1) =
           Created (createAlert (tCreate e1) v1 (strategyProcessViolation (determineStrategy v1) v1))
             (determineStrategy v1)"
    by (simp add: processViolation_not_suppressed[OF first])
  have s2: "shouldSuppressAlert (tCheck e2) ?a1 v2 = (tCheck e2 - tStore e1 < suppressionWindow a)"
    by (rule shouldSuppress_after_create[OF first same])
  have r2: "processViolation e2 ?a1 v2 =
           (if tCheck e2 - tStore e1 < suppressionWindow a
            then (?a1, Suppressed)
            else (sendNotifications (publishThrows e2)
                    (storeAlert (tStore e2) ?a1
                       (createAlert (tCreate e2) v2
                          (strategyProcessViolation (determineStrategy v2) v2)))
                    (createAlert (tCreate e2) v2
                       (strategyProcessViolation (determineStrategy v2) v2)),
                  Created (createAlert (tCreate e2) v2
                             (strategyProcessViolation (determineStrategy v2) v2))
                    (determineStrategy v2)))"
  proof (cases "tCheck e2 - tStore e1 < suppressionWindow a")
    case True
    then show ?thesis using s2 by (simp add: processViolation_suppressed)
  next
    case False
    then have "\<not> shouldSuppressAlert (tCheck e2) ?a1 v2" using s2 by simp
    from processViolation_not_suppressed[OF this] show ?thesis using False by simp
  qed
  have rs: "snd (processViolations a [(e1, v1), (e2, v2)]) =
      [snd (processViolation e1 a v1), snd (processViolation e2 ?a1 v2)]"
    by (simp add: split_beta Let_def)
  have cnt: "length (filter (\<lambda>r. r \<noteq> Suppressed) (snd (processViolations a [(e1, v1), (e2, v2)])))
           = (if tCheck e2 - tStore e1 < suppressionWindow a then 1 else 2)"
    unfolding rs r1 r2 by simp
  show ?thesis using r1 r2 cnt by (intro conjI)
qed

text \<open>
  The theorem with the default window of 30000 ms: a LOW violation stored at time 1000
  suppresses a CRITICAL violation of the same vehicle checked at time 30999 (one alert); the
  same violation checked at time 31001 creates a second alert.
\<close>

theorem suppression_window_witness:
  "vVehicleId (exampleViolation ''VEH001'' 95) = vVehicleId (exampleViolation ''VEH001'' 61)
   \<and> \<not> shouldSuppressAlert (tCheck (exampleEnv 1000)) (newAlertSystem (Some []))
          (exampleViolation ''VEH001'' 61)
   \<and> vSeverity (exampleViolation ''VEH001'' 61) = LOW
   \<and> vSeverity (exampleViolation ''VEH001'' 95) = CRITICAL
   \<and> processViolation (exampleEnv 30999)
        (fst (processViolation (exampleEnv 1000) (newAlertSystem (Some []))
               (exampleViolation ''VEH001'' 61)))
        (exampleViolation ''VEH001'' 95)
       = (fst (processViolation (exampleEnv 1000) (newAlertSystem (Some []))
                 (exampleViolation ''VEH001'' 61)), Suppressed)
   \<and> length (filter (\<lambda>r. r \<noteq> Suppressed)
        (snd (processViolations (newAlertSystem (Some []))
           [(exampleEnv 1000, exampleViolation ''VEH001'' 61),
            (exampleEnv 30999, exampleViolation ''VEH001'' 95)]))) = 1
   \<and> length (filter (\<lambda>r. r \<noteq> Suppressed)
        (snd (processViolations (newAlertSystem (Some []))
           [(exampleEnv 1000, exampleViolation ''VEH001'' 61),
            (exampleEnv 31001, exampleViolation ''VEH001'' 95)]))) = 2"
proof -
  have v: "vVehicleId (exampleViolation ''VEH001'' 95) = ''VEH001''"
    "vVehicleId (exampleViolation ''VEH001'' 61) = ''VEH001''"
    "vSeverity (exampleViolation ''VEH001'' 61) = LOW"
    "vSeverity (exampleViolation ''VEH001'' 95) = CRITICAL"
    by (simp_all add: exampleViolation_fields severityOf_def)
  have n: "\<not> shouldSuppressAlert (tCheck (exampleEnv 1000)) (newAlertSystem (Some []))
          (exampleViolation ''VEH001'' 61)"
    by (simp add: shouldSuppressAlert_def newAlertSystem_def)
  have t: "tCheck (exampleEnv 30999) - tStore (exampleEnv 1000) < suppressionWindow (newAlertSystem (Some []))"
    "\<not> tCheck (exampleEnv 31001) - tStore (exampleEnv 1000) < suppressionWindow (newAlertSystem (Some []))"
    by (simp_all add: exampleEnv_def newAlertSystem_def)
  show ?thesis
    using suppression_window[of "exampleViolation ''VEH001'' 95" "exampleViolation ''VEH001'' 61"
        "exampleEnv 1000" "newAlertSystem (Some [])" "exampleEnv 30999"]
      suppression_window[of "exampleViolation ''VEH001'' 95" "exampleViolation ''VEH001'' 61"
        "exampleEnv 1000" "newAlertSystem (Some [])" "exampleEnv 31001"]
    unfolding v using n t v by (simp del: processViolations.simps)
qed

text \<open>
  C10. In every state the alert engine reaches from its constructor by calls of
  \<^verbatim>\<open>processViolation\<close>, the alert history has at most 1000 entries, also after one
  more call; and storing an alert in such a state puts it at the front and keeps the first
  1000 entries, so the oldest entry goes once the capacity is exceeded.
\<close>

theorem history_bounded:
  "length (alertHistory (fst (processViolations (newAlertSystem client) calls))) \<le> 1000
   \<and> length (alertHistory
        (fst (processViolation e (fst (processViolations (newAlertSystem client) calls)) v)))
       \<le> 1000
   \<and> alertHistory (storeAlert now (fst (processViolations (newAlertSystem client) calls)) al)
       = take 1000 (al # alertHistory (fst (processViolations (newAlertSystem client) calls)))"
proof -
  let ?a = "fst (processViolations (newAlertSystem client) calls)"
  have m: "maxHistorySize ?a = 1000" by (simp add: newAlertSystem_def)
  have "length (alertHistory (newAlertSystem client)) \<le> maxHistorySize (newAlertSystem client)"
    by (simp add: newAlertSystem_def)
  from processViolations_bounded[OF this, of calls]
  have b: "length (alertHistory ?a) \<le> maxHistorySize ?a" by simp
  have b1: "length (alertHistory ?a) \<le> 1000" using b unfolding m .
  have b2: "length (alertHistory (fst (processViolation e ?a v))) \<le> 1000"
    using processViolation_bounded[OF b, of e v] unfolding m .
  have b3: "alertHistory (storeAlert now ?a al) = take 1000 (al # alertHistory ?a)"
    using storeAlert_history[OF b, of now al] unfolding m .
  show ?thesis using b1 b2 b3 by (intro conjI)
qed
text \<open>The bound after two calls that each create an alert.\<close>

theorem history_bounded_witness:
  "length (alertHistory (fst (processViolations (newAlertSystem (Some []))
      [(exampleEnv 1000, exampleViolation ''VEH001'' 61),
       (exampleEnv 31001, exampleViolation ''VEH001'' 95)]))) \<le> 1000"
  using history_bounded[of "Some []" "[(exampleEnv 1000, exampleViolation ''VEH001'' 61),
       (exampleEnv 31001, exampleViolation ''VEH001'' 95)]"]
  by (simp del: processViolations.simps)

section \<open>Processing one reading\<close>

lemma updateVehicleState_other_fields [simp]:
  "dataStore (fst (updateVehicleState sp d)) = dataStore sp"
  "alertSystem (fst (updateVehicleState sp d)) = alertSystem sp"
  "consecutiveLimit (fst (updateVehicleState sp d)) = consecutiveLimit sp"
  "processedCount (fst (updateVehicleState sp d)) = processedCount sp"
  "violationCount (fst (updateVehicleState sp d)) = violationCount sp"
  by (simp_all add: updateVehicleState_def Let_def)

lemma checkSpeedViolation_fields [simp]:
  "vehicleStates (fst (checkSpeedViolation now sp d st)) = vehicleStates sp"
  "dataStore (fst (checkSpeedViolation now sp d st)) = dataStore sp"
  "alertSystem (fst (checkSpeedViolation now sp d st)) = alertSystem sp"
  "spSpeedLimit (fst (checkSpeedViolation now sp d st)) = spSpeedLimit sp"
  "consecutiveLimit (fst (checkSpeedViolation now sp d st)) = consecutiveLimit sp"
  "processedCount (fst (checkSpeedViolation now sp d st)) = processedCount sp"
  by (simp_all add: checkSpeedViolation_def Let_def)

lemma updateVehicleState_processedCount:
  "vehicleStates (fst (updateVehicleState (sp\<lparr> processedCount := n \<rparr>) d)) =
     vehicleStates (fst (updateVehicleState sp d))"
  "snd (updateVehicleState (sp\<lparr> processedCount := n \<rparr>) d) = snd (updateVehicleState sp d)"
  by (simp_all add: updateVehicleState_def Let_def currentStateOf_def)


lemma processSpeedData_vehicleStates:
  "vehicleStates (fst (processSpeedData e (Valid d) sp)) =
     vehicleStates (fst (updateVehicleState sp d))"
  by (simp add: processSpeedData_def split_beta Let_def updateVehicleState_processedCount
      split: option.splits)

lemma processSpeedData_no_violation:
  assumes "speed d \<le> spSpeedLimit sp" and "dataStore sp = Some records"
  shows "snd (processSpeedData e (Valid d) sp) =
           (if saveThrows e then ProcessingError
            else Success d (snd (updateVehicleState sp d)) None)"
    and "alertSystem (fst (processSpeedData e (Valid d) sp)) = alertSystem sp"
    and "dataStore (fst (processSpeedData e (Valid d) sp)) =
           Some (records @ [(d, \<not> saveThrows e)])"
    and "violationCount (fst (processSpeedData e (Valid d) sp)) = violationCount sp"
  using assms
  by (simp_all add: processSpeedData_def split_beta Let_def checkSpeedViolation_None
      updateVehicleState_processedCount split: option.splits)



lemma handleSpeedMessage_unparsable:
  "parseSpeedMessage b (tParse e) message = None \<Longrightarrow>
   handleSpeedMessage b validate e m message =
     m\<lparr> lastMessageTime := Some (tMessage e), messageCount := messageCount m + 1,
        errorCount := errorCount m + 1 \<rparr>"
  by (simp add: handleSpeedMessage_def Let_def)

lemma handleSpeedMessage_parsed:
  "parseSpeedMessage b (tParse e) message = Some raw \<Longrightarrow>
   handleSpeedMessage b validate e m message =
     (case snd (processSpeedData e (validate raw) (theSpeedProcessor m)) of
        Success d st viol \<Rightarrow>
          generateAlerts e
            (m\<lparr> lastMessageTime := Some (tMessage e), messageCount := messageCount m + 1,
               theSpeedProcessor := fst (processSpeedData e (validate raw) (theSpeedProcessor m)) \<rparr>)
            d viol
      | _ \<Rightarrow> m\<lparr> lastMessageTime := Some (tMessage e), messageCount := messageCount m + 1,
               theSpeedProcessor := fst (processSpeedData e (validate raw) (theSpeedProcessor m)),
               errorCount := errorCount m + 1 \<rparr>)"
  by (simp add: handleSpeedMessage_def Let_def split_beta split: processingResult.splits)

lemma parseSpeedMessage_no_speed:
  assumes "parsedMessageOf b message = Some (JObj props)"
      and "\<forall>r. map_of props ''speed'' \<noteq> Some (JNum r)"
  shows "parseSpeedMessage b now message = None"
proof -
  have "validSpeed (getProp (JObj props) ''speed'') = None"
  proof (cases "map_of props ''speed''")
    case None
    then show ?thesis by simp
  next
    case (Some v)
    then show ?thesis using assms(2) by (cases v) simp_all
  qed
  then show ?thesis using assms(1) by (simp add: parseSpeedMessage_def)
qed

lemma example_parse:
  assumes "vid \<noteq> []" and "trim vid = vid" and "0 \<le> s" and "s \<le> 500"
  shows "parseSpeedMessage exampleBuiltins t (exampleMessage vid s) = Some (exampleRaw vid s)"
  using assms
  by (simp add: parseSpeedMessage_def exampleMessage_def exampleRaw_def exampleBuiltins_def)

lemma example_trim: "trim ''VEH001'' = ''VEH001''" "trim ''VEH005'' = ''VEH005''"
  by (simp_all add: trim_def isWhiteSpace_def)

lemma example_validate:
  "exampleValidate (exampleRaw ''VEH001'' s) = Valid (exampleReading ''VEH001'' s)"
  "exampleValidate (exampleRaw ''VEH005'' s) = Valid (exampleReading ''VEH005'' s)"
  by (simp_all add: exampleValidate_def exampleRaw_def)

lemma example_processor:
  "theSpeedProcessor (newMqttSpeedProcessor 60 3) =
     newSpeedProcessor 60 3 (Some (newAlertSystem (Some []))) (Some [])"
  "dataStore (theSpeedProcessor (newMqttSpeedProcessor 60 3)) = Some []"
  "alertSystem (theSpeedProcessor (newMqttSpeedProcessor 60 3)) = Some (newAlertSystem (Some []))"
  "spSpeedLimit (theSpeedProcessor (newMqttSpeedProcessor 60 3)) = 60"
  "alertTopic (newMqttSpeedProcessor 60 3) = []"
  "errorCount (newMqttSpeedProcessor 60 3) = 0"
  "messageCount (newMqttSpeedProcessor 60 3) = 0"
  by (simp_all add: newMqttSpeedProcessor_def newSpeedProcessor_def)

lemma example_env [simp]:
  "saveThrows (exampleEnv t) = False" "tParse (exampleEnv t) = t" "tMessage (exampleEnv t) = t"
  "simplePublishThrows (exampleEnv t) = False" "criticalPublishThrows (exampleEnv t) = False"
  "publishThrows (exampleEnv t) = False" "tCheck (exampleEnv t) = t" "tStore (exampleEnv t) = t"
  "tCreate (exampleEnv t) = t" "tDetect (exampleEnv t) = t" "tSimple (exampleEnv t) = t"
  "tCritical (exampleEnv t) = t"
  by (simp_all add: exampleEnv_def)




text \<open>
  C7. For a validated reading at or under the limit, \<^verbatim>\<open>checkSpeedViolation\<close> returns no
  violation; \<^verbatim>\<open>processSpeedData\<close> reports none, leaves the alert system untouched, and
  has handed the reading to the record store (whether or not the write then succeeds); and
  the handler publishes nothing on the alert topic.
\<close>

theorem no_violation_still_persisted:
  assumes "speed d \<le> spSpeedLimit (theSpeedProcessor m)"
      and "dataStore (theSpeedProcessor m) = Some records"
      and "parseSpeedMessage b (tParse e) message = Some raw" and "validate raw = Valid d"
  shows "snd (checkSpeedViolation now (theSpeedProcessor m) d st) = None
       \<and> snd (processSpeedData e (Valid d) (theSpeedProcessor m)) =
           (if saveThrows e then ProcessingError
            else Success d (snd (updateVehicleState (theSpeedProcessor m) d)) None)
       \<and> alertSystem (fst (processSpeedData e (Valid d) (theSpeedProcessor m))) =
           alertSystem (theSpeedProcessor m)
       \<and> dataStore (fst (processSpeedData e (Valid d) (theSpeedProcessor m))) =
           Some (records @ [(d, \<not> saveThrows e)])
       \<and> theSpeedProcessor (handleSpeedMessage b validate e m message) =
           fst (processSpeedData e (Valid d) (theSpeedProcessor m))
       \<and> alertTopic (handleSpeedMessage b validate e m message) = alertTopic m"
proof -
  let ?sp = "theSpeedProcessor m"
  note f = processSpeedData_no_violation[OF assms(1,2), of e]
  have c: "snd (checkSpeedViolation now ?sp d st) = None"
    using assms(1) by (simp add: checkSpeedViolation_None)
  have h: "theSpeedProcessor (handleSpeedMessage b validate e m message) =
             fst (processSpeedData e (Valid d) ?sp)
         \<and> alertTopic (handleSpeedMessage b validate e m message) = alertTopic m"
    by (simp add: handleSpeedMessage_parsed[OF assms(3)] assms(4) f(1) generateAlerts_def)
  show ?thesis using c f h by (intro conjI) simp_all
qed

text \<open>
  The theorem for a reading of 45.5 km/h at limit 60: the store has received the reading,
  the alert system is as constructed, the alert topic is empty.
\<close>

theorem no_violation_still_persisted_witness:
  "speed (exampleReading ''VEH001'' (91 / 2)) \<le> spSpeedLimit (theSpeedProcessor (newMqttSpeedProcessor 60 3))
   \<and> dataStore (theSpeedProcessor (newMqttSpeedProcessor 60 3)) = Some []
   \<and> parseSpeedMessage exampleBuiltins (tParse (exampleEnv 1000))
        (exampleMessage ''VEH001'' (91 / 2)) = Some (exampleRaw ''VEH001'' (91 / 2))
   \<and> exampleValidate (exampleRaw ''VEH001'' (91 / 2)) = Valid (exampleReading ''VEH001'' (91 / 2))
   \<and> dataStore (theSpeedProcessor (handleSpeedMessage exampleBuiltins exampleValidate
        (exampleEnv 1000) (newMqttSpeedProcessor 60 3) (exampleMessage ''VEH001'' (91 / 2))))
       = Some [(exampleReading ''VEH001'' (91 / 2), True)]
   \<and> alertSystem (theSpeedProcessor (handleSpeedMessage exampleBuiltins exampleValidate
        (exampleEnv 1000) (newMqttSpeedProcessor 60 3) (exampleMessage ''VEH001'' (91 / 2))))
       = Some (newAlertSystem (Some []))
   \<and> alertTopic (handleSpeedMessage exampleBuiltins exampleValidate
        (exampleEnv 1000) (newMqttSpeedProcessor 60 3) (exampleMessage ''VEH001'' (91 / 2))) = []"
proof -
  have p: "parseSpeedMessage exampleBuiltins (tParse (exampleEnv 1000))
        (exampleMessage ''VEH001'' (91 / 2)) = Some (exampleRaw ''VEH001'' (91 / 2))"
    by (rule example_parse) (simp_all add: example_trim)
  have l: "speed (exampleReading ''VEH001'' (91 / 2))
             \<le> spSpeedLimit (theSpeedProcessor (newMqttSpeedProcessor 60 3))"
    by (simp add: example_processor(4) exampleReading_def)
  from no_violation_still_persisted[where validate = exampleValidate,
      OF l example_processor(2) p example_validate(1)[of "91 / 2"]]
  show ?thesis using p l
    by (simp add: example_processor(2,3,5) example_validate(1))
qed

text \<open>
  C8. A message that is the empty string, a string that \<^verbatim>\<open>JSON.parse\<close> rejects, or an
  object (given as such or as its text) without a numeric \<^verbatim>\<open>speed\<close> is not parsed into
  a reading: \<^verbatim>\<open>parseSpeedMessage\<close> returns nothing. The handler returns with the message
  and the error counted and nothing else changed: the speed processor (vehicle states,
  store, alert system) and the alert topic are as before. The stream goes on with the next
  message from that state.
\<close>

theorem malformed_payload_discarded:
  assumes "message = JStr []
         \<or> (\<exists>s. message = JStr s \<and> JSON_parse b s = None)
         \<or> (\<exists>props. (message = JObj props
                       \<or> (\<exists>s. message = JStr s \<and> JSON_parse b s = Some (JObj props)))
                    \<and> (\<forall>r. map_of props ''speed'' \<noteq> Some (JNum r)))"
  shows "parseSpeedMessage b (tParse e) message = None
       \<and> handleSpeedMessage b validate e m message =
           m\<lparr> lastMessageTime := Some (tMessage e), messageCount := messageCount m + 1,
              errorCount := errorCount m + 1 \<rparr>
       \<and> theSpeedProcessor (handleSpeedMessage b validate e m message) = theSpeedProcessor m
       \<and> alertTopic (handleSpeedMessage b validate e m message) = alertTopic m
       \<and> handleSpeedMessages b validate m ((e, message) # rest) =
           handleSpeedMessages b validate
             (m\<lparr> lastMessageTime := Some (tMessage e), messageCount := messageCount m + 1,
                 errorCount := errorCount m + 1 \<rparr>) rest"
proof -
  have p: "parseSpeedMessage b (tParse e) message = None"
    using assms
  proof (elim disjE exE conjE)
    assume "message = JStr []"
    then show ?thesis by (simp add: parseSpeedMessage_def)
  next
    fix s assume "message = JStr s" "JSON_parse b s = None"
    then show ?thesis by (simp add: parseSpeedMessage_def)
  next
    fix props
    assume n: "\<forall>r. map_of props ''speed'' \<noteq> Some (JNum r)" and "message = JObj props"
    then have "parsedMessageOf b message = Some (JObj props)" by simp
    from parseSpeedMessage_no_speed[OF this n] show ?thesis .
  next
    fix props s
    assume n: "\<forall>r. map_of props ''speed'' \<noteq> Some (JNum r)"
      and s: "message = JStr s" "JSON_parse b s = Some (JObj props)"
    show ?thesis
    proof (cases "s = [] \<or> trim s = []")
      case True
      then show ?thesis using s by (simp add: parseSpeedMessage_def)
    next
      case False
      then have "parsedMessageOf b message = Some (JObj props)" using s by simp
      from parseSpeedMessage_no_speed[OF this n] show ?thesis .
    qed
  qed
  note h = handleSpeedMessage_unparsable[OF p, of validate m]
  show ?thesis using p h by simp
qed
text \<open>
  The theorem for the empty string, the truncated text, the object without speed and an
  object whose speed is a string.
\<close>

theorem malformed_payload_discarded_witness:
  \<open>JSON_parse exampleBuiltins ''{"invalid": "json"'' = None
   \<and> JSON_parse exampleBuiltins ''{"vehicleId":"X"}'' = Some (JObj [(''vehicleId'', JStr ''X'')])
   \<and> (\<forall>r. map_of [(''vehicleId'', JStr ''X'')] ''speed'' \<noteq> Some (JNum r))
   \<and> (\<forall>r. map_of [(''vehicleId'', JStr ''VEH004''), (''speed'', JStr ''fast'')] ''speed'' \<noteq> Some (JNum r))
   \<and> parseSpeedMessage exampleBuiltins 0 (JStr []) = None
   \<and> parseSpeedMessage exampleBuiltins 0 (JStr ''{"invalid": "json"'') = None
   \<and> parseSpeedMessage exampleBuiltins 0 (JStr ''{"vehicleId":"X"}'') = None
   \<and> parseSpeedMessage exampleBuiltins 0
        (JObj [(''vehicleId'', JStr ''VEH004''), (''speed'', JStr ''fast'')]) = None
   \<and> errorCount (handleSpeedMessage exampleBuiltins exampleValidate (exampleEnv 0)
        (newMqttSpeedProcessor 60 3) (JStr ''{"invalid": "json"'')) = 1
   \<and> theSpeedProcessor (handleSpeedMessage exampleBuiltins exampleValidate (exampleEnv 0)
        (newMqttSpeedProcessor 60 3) (JStr ''{"invalid": "json"''))
       = theSpeedProcessor (newMqttSpeedProcessor 60 3)
   \<and> alertTopic (handleSpeedMessage exampleBuiltins exampleValidate (exampleEnv 0)
        (newMqttSpeedProcessor 60 3) (JStr ''{"invalid": "json"'')) = []\<close>
proof -
  have j: \<open>JSON_parse exampleBuiltins ''{"invalid": "json"'' = None\<close>
    \<open>JSON_parse exampleBuiltins ''{"vehicleId":"X"}'' = Some (JObj [(''vehicleId'', JStr ''X'')])\<close>
    by (simp_all add: exampleBuiltins_def)
  have n: "\<forall>r. map_of [(''vehicleId'', JStr ''X'')] ''speed'' \<noteq> Some (JNum r)"
    "\<forall>r. map_of [(''vehicleId'', JStr ''VEH004''), (''speed'', JStr ''fast'')] ''speed'' \<noteq> Some (JNum r)"
    by simp_all
  note t = malformed_payload_discarded[where b = exampleBuiltins and e = "exampleEnv 0"
      and validate = exampleValidate and m = "newMqttSpeedProcessor 60 3" and rest = "[]"]
  show ?thesis
    using t[of "JStr []"]
      t[of \<open>JStr ''{"invalid": "json"''\<close>]
      t[of \<open>JStr ''{"vehicleId":"X"}''\<close>]
      t[of "JObj [(''vehicleId'', JStr ''VEH004''), (''speed'', JStr ''fast'')]"]
      j n
    by (simp add: example_processor(5,6))
qed

end
